theory Spec2Isabelle
  imports Main "HOL-Library.Sublist"
begin

section \<open>The du number checker: a shallow embedding of du-number-checker.py\<close>

text \<open>
  The script drives a headless browser through the du shop, searches every configured
  number and sends one Telegram message when some number appears available. The
  browser and the Telegram API are outside the program: they are a record of operations
  over an abstract world \<open>'w\<close>, each of which may raise. What the program itself
  does (printing, catching, appending to \<open>available\<close>, posting) is state passing over
  the record \<open>st\<close>.
\<close>

subsection \<open>Strings\<close>

text \<open>\<open>sub in s\<close> on Python strings: \<open>sub\<close> occurs in \<open>s\<close> as a contiguous run.\<close>

fun str_in :: "string \<Rightarrow> string \<Rightarrow> bool" where
  "str_in sub [] = (sub = [])"
| "str_in sub (c # cs) = (prefix sub (c # cs) \<or> str_in sub cs)"

text \<open>\<open>s.replace(old, new)\<close> for a pattern \<open>old\<close> of one character.\<close>

definition replace1 :: "char \<Rightarrow> string \<Rightarrow> string \<Rightarrow> string" where
  "replace1 old new s = concat (map (\<lambda>c. if c = old then new else [c]) s)"

text \<open>\<open>sep.join(xs)\<close>.\<close>

fun join :: "string \<Rightarrow> string list \<Rightarrow> string" where
  "join sep [] = []"
| "join sep [x] = x"
| "join sep (x # y # ys) = x @ sep @ join sep (y # ys)"

text \<open>\<open>"{}".format(n)\<close> for a natural number: its decimal digits.\<close>

definition digit :: "nat \<Rightarrow> char" where
  "digit d = char_of (of_char CHR ''0'' + d)"

fun format_nat :: "nat \<Rightarrow> string" where
  "format_nat n = (if n < 10 then [digit n] else format_nat (n div 10) @ [digit (n mod 10)])"

subsection \<open>Classifying one result page (lines 194 to 204)\<close>

datatype verdict = Unavailable | Available | Ambiguous

definition no_results_marker :: string where
  "no_results_marker = ''No results found''"

definition classify :: "string option \<Rightarrow> string \<Rightarrow> verdict" where
  "classify content match_fragment =
     (let body_text = (case content of None \<Rightarrow> [] | Some t \<Rightarrow> t);
          normalized_body = replace1 CHR '' '' [] body_text;
          normalized_fragment = replace1 CHR '' '' [] match_fragment
      in if str_in no_results_marker body_text then Unavailable
         else if str_in normalized_fragment normalized_body then Available
         else Ambiguous)"

subsection \<open>Exceptions, the outside world and the program state\<close>

text \<open>
  Only the class of an exception matters to the script (\<open>except PlaywrightTimeoutError\<close>
  against \<open>except Exception\<close>), and its \<open>str\<close> and \<open>repr\<close>, which are printed.
\<close>

datatype exn_class = PlaywrightTimeoutError | OtherException

datatype exn = Exn (exn_class: exn_class) (exn_str: string) (exn_repr: string)

text \<open>Playwright locators are lazy descriptions of elements; building one never fails.\<close>

datatype locator =
    GetByPlaceholder string
  | GetByRole string string
  | GetByText string bool
  | Locator string
  | First locator
  | Nth locator nat
  | LocatorIn locator string
  | GetByTextIn locator string bool

record response =
  status_code :: nat
  resp_text :: string

text \<open>
  The calls that reach the browser or the network. Each takes the world, may raise, and
  leaves a new world. \<open>playwright_start\<close> and \<open>playwright_stop\<close> are entering and
  leaving the context manager \<open>sync_playwright()\<close>. \<open>click\<close> carries its \<open>force\<close> flag, \<open>page_goto\<close> its
  \<open>wait_until\<close> and \<open>timeout\<close>, \<open>requests_post\<close> its form data and timeout.
\<close>

record 'w env =
  playwright_start :: "'w \<Rightarrow> (exn + unit) \<times> 'w"
  playwright_stop :: "'w \<Rightarrow> (exn + unit) \<times> 'w"
  chromium_launch :: "bool \<Rightarrow> nat \<Rightarrow> string list \<Rightarrow> 'w \<Rightarrow> (exn + unit) \<times> 'w"
  new_page :: "'w \<Rightarrow> (exn + unit) \<times> 'w"
  browser_close :: "'w \<Rightarrow> (exn + unit) \<times> 'w"
  page_goto :: "string \<Rightarrow> string \<Rightarrow> nat \<Rightarrow> 'w \<Rightarrow> (exn + unit) \<times> 'w"
  page_url :: "'w \<Rightarrow> string"
  wait_for_timeout :: "nat \<Rightarrow> 'w \<Rightarrow> (exn + unit) \<times> 'w"
  loc_count :: "locator \<Rightarrow> 'w \<Rightarrow> (exn + nat) \<times> 'w"
  is_visible :: "locator \<Rightarrow> 'w \<Rightarrow> (exn + bool) \<times> 'w"
  click :: "locator \<Rightarrow> bool \<Rightarrow> 'w \<Rightarrow> (exn + unit) \<times> 'w"
  fill :: "locator \<Rightarrow> string \<Rightarrow> 'w \<Rightarrow> (exn + unit) \<times> 'w"
  press :: "locator \<Rightarrow> string \<Rightarrow> 'w \<Rightarrow> (exn + unit) \<times> 'w"
  text_content :: "string \<Rightarrow> 'w \<Rightarrow> (exn + string option) \<times> 'w"
  requests_post :: "string \<Rightarrow> (string \<times> string) list \<Rightarrow> nat \<Rightarrow> 'w \<Rightarrow> (exn + response) \<times> 'w"

text \<open>
  The module's configuration. The bot token and the chat id are read from the process
  environment when the module is loaded; the model takes the values read.
\<close>

record config =
  DU_URL :: string
  NUMBERS_TO_CHECK :: "(string \<times> string) list"
  TELEGRAM_BOT_TOKEN :: string
  TELEGRAM_CHAT_ID :: string
  HEADLESS :: bool
  SLOW_MO_MS :: nat

text \<open>
  What a run has done so far: the world it left, the lines printed, the tracebacks
  printed (as the exceptions they belong to), the HTTP requests issued (whether or not
  they were answered), and the local list \<open>available\<close> of \<open>check_numbers\<close>, which
  outlives the exceptions caught around it.
\<close>

record 'w st =
  world :: 'w
  stdout :: "string list"
  stderr :: "exn list"
  posts :: "(string \<times> (string \<times> string) list) list"
  available :: "(string \<times> string) list"

type_synonym ('w, 'a) prog = "'w st \<Rightarrow> (exn + 'a) \<times> 'w st"

definition ret :: "'a \<Rightarrow> ('w, 'a) prog" where
  "ret x s = (Inr x, s)"

definition raise :: "exn \<Rightarrow> ('w, 'a) prog" where
  "raise e s = (Inl e, s)"

definition bnd :: "('w, 'a) prog \<Rightarrow> ('a \<Rightarrow> ('w, 'b) prog) \<Rightarrow> ('w, 'b) prog" where
  "bnd m f s = (case m s of (Inl e, s') \<Rightarrow> (Inl e, s') | (Inr x, s') \<Rightarrow> f x s')"

definition seq :: "('w, 'a) prog \<Rightarrow> ('w, 'b) prog \<Rightarrow> ('w, 'b) prog" where
  "seq m k = bnd m (\<lambda>_. k)"

definition try_except :: "('w, 'a) prog \<Rightarrow> (exn \<Rightarrow> ('w, 'a) prog) \<Rightarrow> ('w, 'a) prog" where
  "try_except m h s = (case m s of (Inl e, s') \<Rightarrow> h e s' | (Inr x, s') \<Rightarrow> (Inr x, s'))"

text \<open>\<open>try: m finally: fin\<close>: an exception of \<open>fin\<close> replaces the outcome of \<open>m\<close>.\<close>

definition try_finally :: "('w, 'a) prog \<Rightarrow> ('w, unit) prog \<Rightarrow> ('w, 'a) prog" where
  "try_finally m fin s =
     (case m s of (r, s') \<Rightarrow>
        (case fin s' of (Inl e, s'') \<Rightarrow> (Inl e, s'') | (Inr _, s'') \<Rightarrow> (r, s'')))"

definition ext :: "('w \<Rightarrow> (exn + 'a) \<times> 'w) \<Rightarrow> ('w, 'a) prog" where
  "ext f s = (case f (world s) of (r, w) \<Rightarrow> (r, s\<lparr>world := w\<rparr>))"

definition print :: "string \<Rightarrow> ('w, unit) prog" where
  "print line s = (Inr (), s\<lparr>stdout := stdout s @ [line]\<rparr>)"

definition print_exc :: "exn \<Rightarrow> ('w, unit) prog" where
  "print_exc e s = (Inr (), s\<lparr>stderr := stderr s @ [e]\<rparr>)"

definition post :: "'w env \<Rightarrow> string \<Rightarrow> (string \<times> string) list \<Rightarrow> nat \<Rightarrow> ('w, response) prog" where
  "post pg url data timeout s =
     (case requests_post pg url data timeout (world s) of
        (r, w) \<Rightarrow> (r, s\<lparr>world := w, posts := posts s @ [(url, data)]\<rparr>))"

subsection \<open>\<open>send_telegram_message\<close>\<close>

definition send_telegram_message :: "config \<Rightarrow> 'w env \<Rightarrow> string \<Rightarrow> ('w, unit) prog" where
  "send_telegram_message cfg pg message =
     (let token = TELEGRAM_BOT_TOKEN cfg; chat_id = TELEGRAM_CHAT_ID cfg
      in if token = [] \<or> chat_id = [] \<or> str_in ''PUT_YOUR'' token \<or> str_in ''PUT_YOUR'' chat_id
         then print ''[WARN] Telegram credentials not set; skipping notification.''
         else
           let url = ''https://api.telegram.org/bot'' @ token @ ''/sendMessage''
           in try_except
                (bnd (post pg url [(''chat_id'', chat_id), (''text'', message)] 10) (\<lambda>resp.
                   if status_code resp \<noteq> 200
                   then print (''[ERROR] Failed to send Telegram message: '' @ resp_text resp)
                   else print ''[INFO] Telegram notification sent.''))
                (\<lambda>e. print (''[ERROR] Exception while sending Telegram message: '' @ exn_repr e)))"

subsection \<open>\<open>get_search_box\<close>\<close>

text \<open>
  The two guarded lookups. A \<open>return\<close> inside the \<open>try\<close> is the value \<open>Some\<close>;
  \<open>None\<close> falls through to the next strategy.
\<close>

definition by_placeholder :: "'w env \<Rightarrow> ('w, locator option) prog" where
  "by_placeholder pg =
     try_except
       (bnd (ext (loc_count pg (GetByPlaceholder ''Search for a number''))) (\<lambda>n.
          if n > 0
          then seq (print ''[DEBUG] Found search box via placeholder.'')
                   (ret (Some (First (GetByPlaceholder ''Search for a number''))))
          else ret None))
       (\<lambda>e. ret None)"

definition by_role :: "'w env \<Rightarrow> ('w, locator option) prog" where
  "by_role pg =
     try_except
       (bnd (ext (loc_count pg (GetByRole ''textbox'' ''Search for a number''))) (\<lambda>n.
          if n > 0
          then seq (print ''[DEBUG] Found search box via role/name.'')
                   (ret (Some (First (GetByRole ''textbox'' ''Search for a number''))))
          else ret None))
       (\<lambda>e. ret None)"

text \<open>The loop over \<open>range(count)\<close>; only \<open>is_visible\<close> is guarded.\<close>

primrec scan_candidates :: "'w env \<Rightarrow> locator \<Rightarrow> nat list \<Rightarrow> ('w, locator option) prog" where
  "scan_candidates pg candidates [] = ret None"
| "scan_candidates pg candidates (i # rest) =
     bnd (try_except
            (bnd (ext (is_visible pg (Nth candidates i))) (\<lambda>v.
               if v
               then seq (print (''[DEBUG] Using visible input candidate #'' @ format_nat i))
                        (ret (Some (Nth candidates i)))
               else ret None))
            (\<lambda>e. ret None))
         (\<lambda>found. case found of
            Some el \<Rightarrow> ret (Some el)
          | None \<Rightarrow> scan_candidates pg candidates rest)"

definition visible_input :: "'w env \<Rightarrow> ('w, locator option) prog" where
  "visible_input pg =
     seq (print ''[DEBUG] Falling back to visible text/search input detection...'')
    (bnd (ext (loc_count pg (Locator ''input[type='text'], input[type='search']''))) (\<lambda>count.
     seq (print (''[DEBUG] Found '' @ format_nat count @ '' candidate input(s).''))
         (scan_candidates pg (Locator ''input[type='text'], input[type='search']'') [0..<count])))"

definition get_search_box :: "'w env \<Rightarrow> ('w, locator option) prog" where
  "get_search_box pg =
     bnd (by_placeholder pg) (\<lambda>r1. case r1 of
        Some loc \<Rightarrow> ret (Some loc)
      | None \<Rightarrow>
          bnd (by_role pg) (\<lambda>r2. case r2 of
             Some loc \<Rightarrow> ret (Some loc)
           | None \<Rightarrow> visible_input pg))"

subsection \<open>\<open>open_du_number_modal\<close>\<close>

text \<open>\<open>"'{}'".format(x)\<close>: the value between single quotes.\<close>

definition quoted :: "string \<Rightarrow> string" where
  "quoted x = [CHR 0x27] @ x @ [CHR 0x27]"

definition open_du_number_modal :: "config \<Rightarrow> 'w env \<Rightarrow> ('w, unit) prog" where
  "open_du_number_modal cfg pg =
     seq (print ''[INFO] Opening du page...'')
    (seq (try_except
            (ext (page_goto pg (DU_URL cfg) ''domcontentloaded'' 30000))
            (\<lambda>e. if exn_class e = PlaywrightTimeoutError
                  then (\<lambda>s. print (''[WARN] Page load timeout, continuing anyway (URL: ''
                                     @ page_url pg (world s) @ '')'') s)
                  else raise e))
    (seq (ext (wait_for_timeout pg 3000))
    (seq (try_except
            (bnd (ext (loc_count pg (GetByText ''I'll do this later'' False))) (\<lambda>n.
               if n > 0
               then seq (print ''[INFO] Dismissing notification popup...'')
                   (seq (ext (click pg (First (GetByText ''I'll do this later'' False)) False))
                        (ext (wait_for_timeout pg 500)))
               else ret ()))
            (\<lambda>e. ret ()))
    (seq (print (''[INFO] Clicking '' @ quoted ''Setup my plan'' @ ''...''))
    (seq (ext (click pg (First (GetByText ''Setup my plan'' False)) False))
    (seq (ext (wait_for_timeout pg 3000))
    (seq (print (''[INFO] Clicking '' @ quoted ''Change'' @ '' on the number card...''))
    (seq (try_except
            (ext (click pg (First (GetByText ''Change'' True)) True))
            (\<lambda>e. seq (print (''[WARN] Exact '' @ quoted ''Change'' @ '' click failed (''
                              @ exn_str e @ ''). Trying scoped locator...''))
                      (try_except
                         (ext (click pg
                            (First (GetByTextIn
                               (LocatorIn (First (GetByText ''Your new number'' False)) ''xpath=..'')
                               ''Change'' False))
                            True))
                         (\<lambda>e2. seq (print (''[ERROR] Could not click '' @ quoted ''Change''
                                            @ '' on card: '' @ exn_repr e2))
                                    (raise e2)))))
    (seq (ext (wait_for_timeout pg 3000))
         (print ''[INFO] Number picker modal should now be open.''))))))))))"

subsection \<open>\<open>check_numbers\<close>\<close>

definition append_available :: "string \<times> string \<Rightarrow> ('w, unit) prog" where
  "append_available q s = (Inr (), s\<lparr>available := available s @ [q]\<rparr>)"

text \<open>Submitting one search and reading the page (lines 187 to 194).\<close>

definition submit_and_read :: "'w env \<Rightarrow> locator \<Rightarrow> string \<Rightarrow> ('w, string option) prog" where
  "submit_and_read pg search_box search_value =
     seq (print (''[INFO] Checking number '' @ quoted search_value @ ''...''))
    (seq (ext (click pg search_box False))
    (seq (ext (fill pg search_box search_value))
    (seq (ext (press pg search_box ''Enter''))
    (seq (ext (wait_for_timeout pg 5000))
         (ext (text_content pg ''body''))))))"

text \<open>The statements of one iteration, inside the inner \<open>try\<close> (lines 187 to 204).\<close>

definition query_steps :: "'w env \<Rightarrow> locator \<Rightarrow> string \<times> string \<Rightarrow> ('w, unit) prog" where
  "query_steps pg search_box q =
     (case q of (search_value, match_fragment) \<Rightarrow>
        bnd (submit_and_read pg search_box search_value) (\<lambda>content.
          case classify content match_fragment of
            Unavailable \<Rightarrow>
              print (''[INFO] '' @ quoted search_value @ '' not available (No results found).'')
          | Available \<Rightarrow>
              seq (print (''[INFO] '' @ quoted match_fragment @ '' appears to be AVAILABLE.''))
                  (append_available (search_value, match_fragment))
          | Ambiguous \<Rightarrow>
              print (''[WARN] Ambiguous result for '' @ quoted search_value @ ''. Did not see ''
                     @ quoted ''No results found'' @ '' or the exact fragment.'')))"

text \<open>One iteration: the steps and their handler (lines 186 to 207).\<close>

definition check_one :: "'w env \<Rightarrow> locator \<Rightarrow> string \<times> string \<Rightarrow> ('w, unit) prog" where
  "check_one pg search_box q =
     try_except (query_steps pg search_box q)
       (\<lambda>e. seq (print (''[ERROR] Error while checking '' @ quoted (fst q) @ '': '' @ exn_repr e))
                 (print_exc e))"

primrec for_numbers :: "'w env \<Rightarrow> locator \<Rightarrow> (string \<times> string) list \<Rightarrow> ('w, unit) prog" where
  "for_numbers pg search_box [] = ret ()"
| "for_numbers pg search_box (q # qs) =
     seq (check_one pg search_box q) (for_numbers pg search_box qs)"

definition launch_args :: "string list" where
  "launch_args =
     [''--disable-blink-features=AutomationControlled'',
      ''--no-sandbox'',
      ''--disable-setuid-sandbox'',
      ''--user-agent=Mozilla/5.0 (Macintosh; Intel Mac OS X 10_15_7) ''
        @ ''AppleWebKit/537.36 (KHTML, like Gecko) Chrome/120.0.0.0 Safari/537.36'']"

text \<open>
  The body of the outer \<open>try\<close> (lines 174 to 207). The early \<open>return available\<close>
  leaves the \<open>try\<close> statement; the \<open>finally\<close> clause runs and the function returns
  \<open>available\<close>, which is what falling out of the \<open>try\<close> statement does too.
\<close>

definition setup_and_loop :: "config \<Rightarrow> 'w env \<Rightarrow> ('w, unit) prog" where
  "setup_and_loop cfg pg =
     seq (open_du_number_modal cfg pg)
    (seq (print ''[INFO] Locating search input in modal...'')
    (bnd (get_search_box pg) (\<lambda>search_box. case search_box of
        None \<Rightarrow>
          seq (print ''[ERROR] Could not find any suitable search input.'')
              (ext (browser_close pg))
      | Some box \<Rightarrow> for_numbers pg box (NUMBERS_TO_CHECK cfg))))"

text \<open>
  The body of \<open>with sync_playwright() as p:\<close> (lines 160 to 213). Launching the
  browser and opening the page are outside every handler.
\<close>

definition in_playwright :: "config \<Rightarrow> 'w env \<Rightarrow> ('w, unit) prog" where
  "in_playwright cfg pg =
     seq (ext (chromium_launch pg (HEADLESS cfg) (SLOW_MO_MS cfg) launch_args))
    (seq (ext (new_page pg))
         (try_finally
            (try_except (setup_and_loop cfg pg)
               (\<lambda>outer.
                  seq (print (''[ERROR] Failed during page setup or modal open: '' @ exn_repr outer))
                      (print_exc outer)))
            (ext (browser_close pg))))"

text \<open>
  The \<open>with\<close> statement enters the context manager, which starts Playwright and may
  raise, runs its body, and leaves the context manager whatever the body did; leaving
  stops Playwright, may raise too, and does not swallow an exception of the body.
\<close>

definition check_numbers :: "config \<Rightarrow> 'w env \<Rightarrow> ('w, (string \<times> string) list) prog" where
  "check_numbers cfg pg =
     seq (\<lambda>s. (Inr (), s\<lparr>available := []\<rparr>))
    (seq (ext (playwright_start pg))
    (seq (try_finally (in_playwright cfg pg) (ext (playwright_stop pg)))
         (\<lambda>s. (Inr (available s), s))))"

subsection \<open>\<open>main\<close>\<close>

definition header :: string where
  "header = ''The following numbers appear to be available on du:''"

text \<open>The loop of lines 230 to 232, appending one bullet per entry.\<close>

definition message_lines :: "(string \<times> string) list \<Rightarrow> string list" where
  "message_lines avail =
     foldl (\<lambda>lines (search_value, match_fragment). lines @ [''- '' @ match_fragment])
       [header] avail"

definition message :: "(string \<times> string) list \<Rightarrow> string" where
  "message avail = join [CHR 0x0A] (message_lines avail)"

definition main :: "config \<Rightarrow> 'w env \<Rightarrow> ('w, unit) prog" where
  "main cfg pg =
     seq (print ''[INFO] Starting du number check...'')
    (bnd (check_numbers cfg pg) (\<lambda>avail.
       if avail = []
       then print ''[INFO] No numbers available today.''
       else seq (print ''[INFO] At least one number appears available. Sending Telegram alert...'')
                (send_telegram_message cfg pg (message avail))))"

subsection \<open>Lines of a text, and whitespace, as the specification speaks of them\<close>

text \<open>
  \<open>split_lines\<close> is \<open>text.split("\n")\<close>: the lines a reader of the message sees.
  \<open>strip_whitespace\<close> removes every character of Python's \<open>string.whitespace\<close>
  (space, tab, line feed, vertical tab, form feed, carriage return), which is what
  stripping whitespace means; the script's own normalisation is \<open>replace1 CHR '' '' []\<close>.
\<close>

fun split_lines :: "string \<Rightarrow> string list" where
  "split_lines [] = [[]]"
| "split_lines (c # cs) =
     (if c = CHR 0x0A then [] # split_lines cs
      else (case split_lines cs of [] \<Rightarrow> [[c]] | l # ls \<Rightarrow> (c # l) # ls))"

definition whitespace :: "char set" where
  "whitespace = {CHR 0x20, CHR 0x09, CHR 0x0A, CHR 0x0B, CHR 0x0C, CHR 0x0D}"

definition strip_whitespace :: "string \<Rightarrow> string" where
  "strip_whitespace s = filter (\<lambda>c. c \<notin> whitespace) s"

subsection \<open>A scripted browser and the configuration of the source\<close>

text \<open>
  A browser whose answers are given as functions: how many elements a locator matches,
  whether a candidate is visible, what filling in a search text does, what the page
  shows for the text last filled in, what closing the browser does and what the
  Telegram API replies. Its world is the text last filled in.
\<close>

definition scripted ::
  "(locator \<Rightarrow> exn + nat) \<Rightarrow> (locator \<Rightarrow> exn + bool) \<Rightarrow> (string \<Rightarrow> exn + unit) \<Rightarrow>
   (string \<Rightarrow> exn + string option) \<Rightarrow> (exn + unit) \<Rightarrow> (exn + response) \<Rightarrow> string env" where
  "scripted counts visible fills texts closing reply =
     \<lparr> playwright_start = (\<lambda>w. (Inr (), w)),
       playwright_stop = (\<lambda>w. (Inr (), w)),
       chromium_launch = (\<lambda>headless slow_mo args w. (Inr (), w)),
       new_page = (\<lambda>w. (Inr (), w)),
       browser_close = (\<lambda>w. (closing, w)),
       page_goto = (\<lambda>url wait_until timeout w. (Inr (), w)),
       page_url = (\<lambda>w. []),
       wait_for_timeout = (\<lambda>ms w. (Inr (), w)),
       loc_count = (\<lambda>loc w. (counts loc, w)),
       is_visible = (\<lambda>loc w. (visible loc, w)),
       click = (\<lambda>loc force w. (Inr (), w)),
       fill = (\<lambda>loc v w. (fills v, v)),
       press = (\<lambda>loc key w. (Inr (), w)),
       text_content = (\<lambda>selector w. (texts w, w)),
       requests_post = (\<lambda>url data timeout w. (reply, w)) \<rparr>"

definition source_config :: "string \<Rightarrow> string \<Rightarrow> config" where
  "source_config token chat_id =
     \<lparr> DU_URL = ''https://shop.du.ae/en/personal/s-du-prepaid-flexi-plans'',
       NUMBERS_TO_CHECK = [(''282 0202'', ''282 0202''), (''1051661'', ''1051661'')],
       TELEGRAM_BOT_TOKEN = token,
       TELEGRAM_CHAT_ID = chat_id,
       HEADLESS = True,
       SLOW_MO_MS = 0 \<rparr>"

definition initial :: "'w \<Rightarrow> 'w st" where
  "initial w = \<lparr> world = w, stdout = [], stderr = [], posts = [], available = [] \<rparr>"

definition boom :: exn where
  "boom = Exn OtherException ''Target closed'' ''Error('Target closed')''"

definition ok_reply :: response where
  "ok_reply = \<lparr> status_code = 200, resp_text = ''ok'' \<rparr>"

text \<open>
  The scenario of the specification: the first number gives a page with the marker
  (and the number searched for), the second a page that shows the number.
\<close>

definition scenario_texts :: "string \<Rightarrow> exn + string option" where
  "scenario_texts w =
     (if w = ''282 0202'' then Inr (Some ''No results found for 282 0202'')
      else Inr (Some (w @ '' is available now'')))"

definition one_placeholder :: "locator \<Rightarrow> exn + nat" where
  "one_placeholder loc = (if loc = GetByPlaceholder ''Search for a number'' then Inr 1 else Inr 0)"

definition scenario :: "string env" where
  "scenario =
     scripted one_placeholder (\<lambda>loc. Inr False) (\<lambda>v. Inr ()) scenario_texts (Inr ()) (Inr ok_reply)"

text \<open>The search input comes detached while the first number is typed.\<close>

definition detached :: "string env" where
  "detached =
     scripted one_placeholder (\<lambda>loc. Inr False)
       (\<lambda>v. if v = ''282 0202'' then Inl boom else Inr ()) scenario_texts (Inr ()) (Inr ok_reply)"








text \<open>The scenario with a Telegram API that refuses, and with one that cannot be reached.\<close>

definition refused :: response where
  "refused = \<lparr> status_code = 401, resp_text = ''Unauthorized'' \<rparr>"

definition scenario_refused :: "string env" where
  "scenario_refused =
     scripted one_placeholder (\<lambda>loc. Inr False) (\<lambda>v. Inr ()) scenario_texts (Inr ()) (Inr refused)"

definition scenario_offline :: "string env" where
  "scenario_offline =
     scripted one_placeholder (\<lambda>loc. Inr False) (\<lambda>v. Inr ()) scenario_texts (Inr ()) (Inl boom)"

text \<open>Every search answers ``No results found''.\<close>

definition nothing_found :: "string env" where
  "nothing_found =
     scripted one_placeholder (\<lambda>loc. Inr False) (\<lambda>v. Inr ())
       (\<lambda>w. Inr (Some ''No results found'')) (Inr ()) (Inr ok_reply)"

subsection \<open>Relations between the state before and after a program\<close>

text \<open>
  \<open>steps_in R m\<close>: whatever \<open>m\<close> does, the state it leaves is related by \<open>R\<close> to
  the one it started from. \<open>quiet\<close> relates states with the same requests issued and
  the same \<open>available\<close>, the output only extended; \<open>no_post\<close> says the same of the
  requests alone.
\<close>

definition steps_in :: "('w st \<Rightarrow> 'w st \<Rightarrow> bool) \<Rightarrow> ('w, 'a) prog \<Rightarrow> bool" where
  "steps_in R m = (\<forall>s. R s (snd (m s)))"

definition quiet :: "'w st \<Rightarrow> 'w st \<Rightarrow> bool" where
  "quiet s s' = (posts s' = posts s \<and> available s' = available s \<and> prefix (stdout s) (stdout s'))"

definition no_post :: "'w st \<Rightarrow> 'w st \<Rightarrow> bool" where
  "no_post s s' = (posts s' = posts s \<and> prefix (stdout s) (stdout s'))"

text \<open>\<open>adds qs\<close>: \<open>available\<close> has grown by a subsequence of \<open>qs\<close>.\<close>

definition adds :: "(string \<times> string) list \<Rightarrow> 'w st \<Rightarrow> 'w st \<Rightarrow> bool" where
  "adds qs s s' = (\<exists>ys. available s' = available s @ ys \<and> subseq ys qs)"

text \<open>The rules that establish \<open>steps_in\<close> along the structure of a program.\<close>

named_theorems frame

section \<open>Lemmas\<close>

subsection \<open>Strings\<close>

lemma str_in_iff: "str_in sub s \<longleftrightarrow> (\<exists>p q. s = p @ sub @ q)"
proof (induction s)
  case Nil
  then show ?case by auto
next
  case (Cons c cs)
  show ?case
  proof
    assume "str_in sub (c # cs)"
    then consider "prefix sub (c # cs)" | "str_in sub cs" by auto
    then show "\<exists>p q. c # cs = p @ sub @ q"
    proof cases
      case 1
      then obtain q where "c # cs = sub @ q" by (auto simp: prefix_def)
      then have "c # cs = [] @ sub @ q" by simp
      then show ?thesis by blast
    next
      case 2
      with Cons.IH obtain p q where "cs = p @ sub @ q" by blast
      then have "c # cs = (c # p) @ sub @ q" by simp
      then show ?thesis by blast
    qed
  next
    assume "\<exists>p q. c # cs = p @ sub @ q"
    then obtain p q where pq: "c # cs = p @ sub @ q" by blast
    show "str_in sub (c # cs)"
    proof (cases p)
      case Nil
      with pq have "prefix sub (c # cs)" by (simp add: prefix_def)
      then show ?thesis by simp
    next
      case (Cons a p')
      with pq have "cs = p' @ sub @ q" by simp
      with Cons.IH have "str_in sub cs" by blast
      then show ?thesis by simp
    qed
  qed
qed

lemma str_in_Nil: "str_in [] s"
  by (induction s) auto

lemma replace1_Nil: "replace1 c [] s = filter (\<lambda>x. x \<noteq> c) s"
  by (induction s) (auto simp: replace1_def)

lemma str_in_filter: "str_in sub s \<Longrightarrow> str_in (filter P sub) (filter P s)"
proof -
  assume "str_in sub s"
  then obtain p q where "s = p @ sub @ q" by (auto simp: str_in_iff)
  then have "filter P s = filter P p @ filter P sub @ filter P q" by simp
  then show ?thesis unfolding str_in_iff by blast
qed

lemma str_in_trans: "str_in a b \<Longrightarrow> str_in b c \<Longrightarrow> str_in a c"
proof -
  assume "str_in a b" "str_in b c"
  then obtain p q p' q' where "b = p @ a @ q" "c = p' @ b @ q'" by (auto simp: str_in_iff)
  then have "c = (p' @ p) @ a @ (q @ q')" by simp
  then show ?thesis unfolding str_in_iff by blast
qed

lemma split_lines_nonempty: "split_lines s \<noteq> []"
  by (induction s) (auto split: list.splits)

lemma split_lines_plain: "CHR 0x0A \<notin> set x \<Longrightarrow> split_lines x = [x]"
  by (induction x) auto

lemma split_lines_append:
  "CHR 0x0A \<notin> set x \<Longrightarrow> split_lines (x @ CHR 0x0A # rest) = x # split_lines rest"
  by (induction x) auto

lemma split_lines_join:
  "xs \<noteq> [] \<Longrightarrow> \<forall>x\<in>set xs. CHR 0x0A \<notin> set x \<Longrightarrow> split_lines (join [CHR 0x0A] xs) = xs"
proof (induction "[CHR 0x0A]" xs rule: join.induct)
  case 1
  then show ?case by simp
next
  case (2 x)
  then show ?case by (simp add: split_lines_plain)
next
  case (3 x y ys)
  then show ?case by (simp add: split_lines_append)
qed

lemma foldl_bullets:
  "foldl (\<lambda>lines (search_value, match_fragment). lines @ [g match_fragment]) acc avail
   = acc @ map (\<lambda>q. g (snd q)) avail"
  by (induction avail arbitrary: acc) (auto split: prod.splits)

lemma message_lines_eq: "message_lines avail = header # map (\<lambda>q. ''- '' @ snd q) avail"
  unfolding message_lines_def by (simp only: foldl_bullets) simp

lemma header_plain: "CHR 0x0A \<notin> set header"
  by (simp add: header_def)

subsection \<open>The combinators\<close>

lemma bnd_Inr: "m s = (Inr x, s') \<Longrightarrow> bnd m f s = f x s'"
  by (simp add: bnd_def)

lemma bnd_Inl: "m s = (Inl e, s') \<Longrightarrow> bnd m f s = (Inl e, s')"
  by (simp add: bnd_def)

lemma try_except_Inr: "m s = (Inr x, s') \<Longrightarrow> try_except m h s = (Inr x, s')"
  by (simp add: try_except_def)

lemma try_except_Inl: "m s = (Inl e, s') \<Longrightarrow> try_except m h s = h e s'"
  by (simp add: try_except_def)

lemma print_eq: "print line s = (Inr (), s\<lparr>stdout := stdout s @ [line]\<rparr>)"
  by (simp add: print_def)

lemma seq_print: "seq (print line) k s = k (s\<lparr>stdout := stdout s @ [line]\<rparr>)"
  by (simp add: seq_def bnd_def print_def)

subsection \<open>Frames\<close>

lemma steps_in_ret [frame]: "reflp R \<Longrightarrow> steps_in R (ret x)"
  by (simp add: steps_in_def ret_def reflp_def)

lemma steps_in_raise [frame]: "reflp R \<Longrightarrow> steps_in R (raise e)"
  by (simp add: steps_in_def raise_def reflp_def)

lemma steps_in_bnd [frame]:
  assumes "transp R" "steps_in R m" "\<And>x. steps_in R (f x)"
  shows "steps_in R (bnd m f)"
  unfolding steps_in_def
proof
  fix s
  obtain r s' where ms: "m s = (r, s')" by (cases "m s")
  from assms(2) ms have 1: "R s s'" by (auto simp: steps_in_def dest: spec [of _ s])
  show "R s (snd (bnd m f s))"
  proof (cases r)
    case (Inl e)
    with ms 1 show ?thesis by (simp add: bnd_def)
  next
    case (Inr x)
    from assms(3) have "R s' (snd (f x s'))" by (simp add: steps_in_def)
    with 1 assms(1) have "R s (snd (f x s'))" by (blast dest: transpD)
    with ms Inr show ?thesis by (simp add: bnd_def)
  qed
qed

lemma steps_in_seq [frame]:
  "transp R \<Longrightarrow> steps_in R m \<Longrightarrow> steps_in R k \<Longrightarrow> steps_in R (seq m k)"
  unfolding seq_def by (rule steps_in_bnd)

lemma steps_in_try_except [frame]:
  assumes "transp R" "steps_in R m" "\<And>e. steps_in R (h e)"
  shows "steps_in R (try_except m h)"
  unfolding steps_in_def
proof
  fix s
  obtain r s' where ms: "m s = (r, s')" by (cases "m s")
  from assms(2) ms have 1: "R s s'" by (auto simp: steps_in_def dest: spec [of _ s])
  show "R s (snd (try_except m h s))"
  proof (cases r)
    case (Inr x)
    with ms 1 show ?thesis by (simp add: try_except_def)
  next
    case (Inl e)
    from assms(3) have "R s' (snd (h e s'))" by (simp add: steps_in_def)
    with 1 assms(1) have "R s (snd (h e s'))" by (blast dest: transpD)
    with ms Inl show ?thesis by (simp add: try_except_def)
  qed
qed

lemma steps_in_try_finally [frame]:
  assumes "transp R" "steps_in R m" "steps_in R fin"
  shows "steps_in R (try_finally m fin)"
  unfolding steps_in_def
proof
  fix s
  obtain r s' where ms: "m s = (r, s')" by (cases "m s")
  obtain r' s'' where fs: "fin s' = (r', s'')" by (cases "fin s'")
  from assms(2) ms have 1: "R s s'" by (auto simp: steps_in_def dest: spec [of _ s])
  from assms(3) fs have 2: "R s' s''" by (auto simp: steps_in_def dest: spec [of _ s'])
  from 1 2 assms(1) have "R s s''" by (blast dest: transpD)
  with ms fs show "R s (snd (try_finally m fin s))"
    by (cases r') (simp_all add: try_finally_def)
qed

lemma steps_in_if [frame]:
  "steps_in R m \<Longrightarrow> steps_in R k \<Longrightarrow> steps_in R (if b then m else k)"
  by simp

lemma steps_in_option [frame]:
  "steps_in R m \<Longrightarrow> (\<And>x. steps_in R (k x)) \<Longrightarrow>
   steps_in R (case v of None \<Rightarrow> m | Some x \<Rightarrow> k x)"
  by (cases v) simp_all

lemma steps_in_verdict [frame]:
  "steps_in R a \<Longrightarrow> steps_in R b \<Longrightarrow> steps_in R c \<Longrightarrow>
   steps_in R (case v of Unavailable \<Rightarrow> a | Available \<Rightarrow> b | Ambiguous \<Rightarrow> c)"
  by (cases v) simp_all

lemma reflp_quiet [frame]: "reflp quiet"
  by (simp add: reflp_def quiet_def)

lemma transp_quiet [frame]: "transp quiet"
  by (auto simp: transp_def quiet_def)

lemma reflp_no_post [frame]: "reflp no_post"
  by (simp add: reflp_def no_post_def)

lemma transp_no_post [frame]: "transp no_post"
  by (auto simp: transp_def no_post_def)

lemma quiet_ext [frame]: "steps_in quiet (ext f)"
  by (simp add: steps_in_def ext_def quiet_def split: prod.splits)

lemma quiet_print [frame]: "steps_in quiet (print line)"
  by (simp add: steps_in_def print_def quiet_def)

lemma quiet_print_exc [frame]: "steps_in quiet (print_exc e)"
  by (simp add: steps_in_def print_exc_def quiet_def)

lemma quiet_no_post: "steps_in quiet m \<Longrightarrow> steps_in no_post m"
  by (simp add: steps_in_def quiet_def no_post_def)

lemma no_post_append_available [frame]: "steps_in no_post (append_available q)"
  by (simp add: steps_in_def append_available_def no_post_def)

lemma quiet_goto_handler [frame]:
  "steps_in quiet (\<lambda>s. print (f s) s)"
  by (simp add: steps_in_def print_def quiet_def)

lemma quiet_open_du_number_modal [frame]: "steps_in quiet (open_du_number_modal cfg pg)"
  unfolding open_du_number_modal_def by (intro frame)

lemma quiet_by_placeholder [frame]: "steps_in quiet (by_placeholder pg)"
  unfolding by_placeholder_def by (intro frame)

lemma quiet_by_role [frame]: "steps_in quiet (by_role pg)"
  unfolding by_role_def by (intro frame)

lemma quiet_scan_candidates [frame]: "steps_in quiet (scan_candidates pg c is)"
  by (induction "is") (simp_all, (intro frame; assumption?)+)

lemma quiet_visible_input [frame]: "steps_in quiet (visible_input pg)"
  unfolding visible_input_def by (intro frame)

lemma quiet_get_search_box [frame]: "steps_in quiet (get_search_box pg)"
  unfolding get_search_box_def by (intro frame)

lemma quiet_submit_and_read [frame]: "steps_in quiet (submit_and_read pg box v)"
  unfolding submit_and_read_def by (intro frame)

lemma no_post_ext [frame]: "steps_in no_post (ext f)"
  by (rule quiet_no_post) (rule quiet_ext)

lemma no_post_print [frame]: "steps_in no_post (print line)"
  by (rule quiet_no_post) (rule quiet_print)

lemma no_post_print_exc [frame]: "steps_in no_post (print_exc e)"
  by (rule quiet_no_post) (rule quiet_print_exc)

subsection \<open>One iteration\<close>

lemma check_one_read:
  assumes "submit_and_read pg box search_value s = (Inr content, s1)"
  shows "check_one pg box (search_value, match_fragment) s =
         (case classify content match_fragment of
            Unavailable \<Rightarrow>
              (Inr (), s1\<lparr>stdout := stdout s1 @
                 [''[INFO] '' @ quoted search_value @ '' not available (No results found).'']\<rparr>)
          | Available \<Rightarrow>
              (Inr (), s1\<lparr>stdout := stdout s1 @
                 [''[INFO] '' @ quoted match_fragment @ '' appears to be AVAILABLE.''],
                 available := available s1 @ [(search_value, match_fragment)]\<rparr>)
          | Ambiguous \<Rightarrow>
              (Inr (), s1\<lparr>stdout := stdout s1 @
                 [''[WARN] Ambiguous result for '' @ quoted search_value @ ''. Did not see ''
                  @ quoted ''No results found'' @ '' or the exact fragment.'']\<rparr>))"
  using assms
  by (cases "classify content match_fragment")
     (simp_all add: check_one_def query_steps_def bnd_def try_except_def seq_def print_def
        append_available_def)

lemma query_steps_raises:
  assumes "query_steps pg box q s = (Inl e, s1)"
  shows "submit_and_read pg box (fst q) s = (Inl e, s1)"
proof -
  obtain sv mf where q: "q = (sv, mf)" by (cases q)
  obtain r s' where sr: "submit_and_read pg box sv s = (r, s')"
    by (cases "submit_and_read pg box sv s")
  show ?thesis
  proof (cases r)
    case (Inl e')
    with assms q sr show ?thesis by (simp add: query_steps_def bnd_def)
  next
    case (Inr content)
    with assms q sr have False
      by (cases "classify content mf")
         (simp_all add: query_steps_def bnd_def seq_def print_def append_available_def)
    then show ?thesis ..
  qed
qed

lemma quiet_available: "steps_in quiet m \<Longrightarrow> m s = (r, s') \<Longrightarrow> available s' = available s"
  by (auto simp: steps_in_def quiet_def dest: spec [of _ s])

lemma check_one_raises:
  assumes "query_steps pg box q s = (Inl e, s1)"
  shows "check_one pg box q s =
           (Inr (), s1\<lparr>stdout := stdout s1 @
              [''[ERROR] Error while checking '' @ quoted (fst q) @ '': '' @ exn_repr e],
              stderr := stderr s1 @ [e]\<rparr>)"
  using assms by (simp add: check_one_def try_except_def seq_def bnd_def print_def print_exc_def)

lemma check_one_returns: "\<exists>s'. check_one pg box q s = (Inr (), s')"
proof -
  obtain r s1 where qs: "query_steps pg box q s = (r, s1)" by (cases "query_steps pg box q s")
  show ?thesis
  proof (cases r)
    case (Inl e)
    with qs show ?thesis by (simp add: check_one_raises)
  next
    case (Inr u)
    with qs show ?thesis by (simp add: check_one_def try_except_def)
  qed
qed

lemma check_one_available:
  assumes "check_one pg box q s = (r, s')"
  shows "available s' = available s \<or> available s' = available s @ [q]"
proof -
  obtain sv mf where q: "q = (sv, mf)" by (cases q)
  obtain r1 s1 where sr: "submit_and_read pg box sv s = (r1, s1)"
    by (cases "submit_and_read pg box sv s")
  have a1: "available s1 = available s"
    using quiet_available [OF quiet_submit_and_read sr] .
  show ?thesis
  proof (cases r1)
    case (Inl e)
    with sr q have "query_steps pg box q s = (Inl e, s1)"
      by (simp add: query_steps_def bnd_def)
    from check_one_raises [OF this] assms a1 show ?thesis by auto
  next
    case (Inr content)
    with sr have "submit_and_read pg box sv s = (Inr content, s1)" by simp
    from check_one_read [OF this, of mf] assms q a1 show ?thesis
      by (cases "classify content mf") auto
  qed
qed

lemma no_post_check_one [frame]: "steps_in no_post (check_one pg box q)"
  unfolding check_one_def query_steps_def
  by (cases q) (simp, intro frame quiet_no_post [OF quiet_submit_and_read])

lemma no_post_for_numbers [frame]: "steps_in no_post (for_numbers pg box qs)"
  by (induction qs) (simp_all, (intro frame; assumption?)+)

lemma no_post_stdout: "steps_in no_post m \<Longrightarrow> m s = (r, s') \<Longrightarrow> prefix (stdout s) (stdout s')"
  by (auto simp: steps_in_def no_post_def dest: spec [of _ s])

lemma no_post_posts: "steps_in no_post m \<Longrightarrow> posts (snd (m s)) = posts s"
  by (auto simp: steps_in_def no_post_def)

lemma emits:
  assumes "steps_in no_post k" "\<And>x. steps_in no_post (f x)" "\<And>e. steps_in no_post (h e)"
  shows "line \<in> set (stdout (snd (try_except (bnd (seq (print line) k) f) h s)))"
proof -
  let ?s0 = "s\<lparr>stdout := stdout s @ [line]\<rparr>"
  have eq: "try_except (bnd (seq (print line) k) f) h s = try_except (bnd k f) h ?s0"
    by (simp add: try_except_def bnd_def seq_def print_def)
  have "steps_in no_post (try_except (bnd k f) h)"
    using assms by (intro frame)
  then have "no_post ?s0 (snd (try_except (bnd k f) h ?s0))"
    unfolding steps_in_def by (rule spec)
  then have "prefix (stdout ?s0) (stdout (snd (try_except (bnd k f) h ?s0)))"
    unfolding no_post_def by (rule conjunct2)
  then have "set (stdout ?s0) \<subseteq> set (stdout (snd (try_except (bnd k f) h ?s0)))"
    by (rule set_mono_prefix)
  with eq show ?thesis by auto
qed

lemma check_one_emits:
  "(''[INFO] Checking number '' @ quoted (fst q) @ ''...'') \<in> set (stdout (snd (check_one pg box q s)))"
  unfolding check_one_def query_steps_def submit_and_read_def
  by (cases q) (simp, rule emits; intro frame)

lemma for_numbers_run:
  "\<exists>s' ys. for_numbers pg box qs s = (Inr (), s') \<and> available s' = available s @ ys \<and> subseq ys qs
      \<and> (\<forall>q\<in>set qs. (''[INFO] Checking number '' @ quoted (fst q) @ ''...'') \<in> set (stdout s'))"
proof (induction qs arbitrary: s)
  case Nil
  then show ?case by (simp add: ret_def)
next
  case (Cons q qs)
  obtain s1 where c1: "check_one pg box q s = (Inr (), s1)"
    using check_one_returns by blast
  from Cons.IH [of s1] obtain s' ys where
    run: "for_numbers pg box qs s1 = (Inr (), s')" and av: "available s' = available s1 @ ys"
    and sub: "subseq ys qs"
    and em: "\<forall>q\<in>set qs. (''[INFO] Checking number '' @ quoted (fst q) @ ''...'') \<in> set (stdout s')"
    by blast
  from c1 run have whole: "for_numbers pg box (q # qs) s = (Inr (), s')"
    by (simp add: seq_def bnd_def)
  from check_one_emits [of q pg box s] c1
  have "(''[INFO] Checking number '' @ quoted (fst q) @ ''...'') \<in> set (stdout s1)" by simp
  moreover from no_post_stdout [OF no_post_for_numbers run]
  have "set (stdout s1) \<subseteq> set (stdout s')" by (rule set_mono_prefix)
  ultimately have emq: "(''[INFO] Checking number '' @ quoted (fst q) @ ''...'') \<in> set (stdout s')"
    by blast
  from check_one_available [OF c1]
  have "available s1 = available s \<or> available s1 = available s @ [q]" .
  then have "\<exists>zs. available s' = available s @ zs \<and> subseq zs (q # qs)"
  proof
    assume "available s1 = available s"
    with av sub show ?thesis by auto
  next
    assume "available s1 = available s @ [q]"
    with av have "available s' = available s @ (q # ys)" by simp
    moreover from sub have "subseq (q # ys) (q # qs)" by simp
    ultimately show ?thesis by blast
  qed
  with whole em emq show ?case by auto
qed

lemma marker_unavailable:
  "str_in no_results_marker body_text \<Longrightarrow> classify (Some body_text) match_fragment = Unavailable"
  by (simp add: classify_def)

lemma fragment_available:
  assumes "str_in shown body_text"
    and "replace1 CHR '' '' [] shown = replace1 CHR '' '' [] match_fragment"
    and "\<not> str_in no_results_marker body_text"
  shows "classify (Some body_text) match_fragment = Available"
proof -
  from assms(1) have "str_in (filter (\<lambda>x. x \<noteq> CHR '' '') shown) (filter (\<lambda>x. x \<noteq> CHR '' '') body_text)"
    by (rule str_in_filter)
  with assms(2) have "str_in (replace1 CHR '' '' [] match_fragment) (replace1 CHR '' '' [] body_text)"
    by (simp add: replace1_Nil)
  with assms(3) show ?thesis by (simp add: classify_def)
qed

lemma submit_scenario_first:
  "submit_and_read scenario (First (GetByPlaceholder ''Search for a number'')) ''282 0202'' (initial [])
   = (Inr (Some ''No results found for 282 0202''),
      \<lparr> world = ''282 0202'',
        stdout = [''[INFO] Checking number '' @ quoted ''282 0202'' @ ''...''],
        stderr = [], posts = [], available = [] \<rparr>)"
  by (simp add: submit_and_read_def scenario_def scripted_def initial_def seq_def bnd_def
      print_def ext_def scenario_texts_def)

lemma submit_scenario_second:
  "submit_and_read scenario (First (GetByPlaceholder ''Search for a number'')) ''1051661'' (initial [])
   = (Inr (Some ''1051661 is available now''),
      \<lparr> world = ''1051661'',
        stdout = [''[INFO] Checking number '' @ quoted ''1051661'' @ ''...''],
        stderr = [], posts = [], available = [] \<rparr>)"
  by (simp add: submit_and_read_def scenario_def scripted_def initial_def seq_def bnd_def
      print_def ext_def scenario_texts_def)

lemma replace1_spaces: "set x \<subseteq> {CHR '' ''} \<Longrightarrow> replace1 CHR '' '' [] x = []"
  by (induction x) (auto simp: replace1_def)

lemma detached_first:
  "query_steps detached (First (GetByPlaceholder ''Search for a number''))
     (''282 0202'', ''282 0202'') (initial [])
   = (Inl boom,
      \<lparr> world = ''282 0202'',
        stdout = [''[INFO] Checking number '' @ quoted ''282 0202'' @ ''...''],
        stderr = [], posts = [], available = [] \<rparr>)"
  by (simp add: query_steps_def submit_and_read_def detached_def scripted_def initial_def seq_def
      bnd_def print_def ext_def)

lemma detached_second:
  "for_numbers detached (First (GetByPlaceholder ''Search for a number''))
     [(''1051661'', ''1051661'')]
     \<lparr> world = ''282 0202'',
       stdout = [''[INFO] Checking number '' @ quoted ''282 0202'' @ ''...'',
                 ''[ERROR] Error while checking '' @ quoted ''282 0202'' @ '': '' @ exn_repr boom],
       stderr = [boom], posts = [], available = [] \<rparr>
   = (Inr (),
      \<lparr> world = ''1051661'',
        stdout = [''[INFO] Checking number '' @ quoted ''282 0202'' @ ''...'',
                  ''[ERROR] Error while checking '' @ quoted ''282 0202'' @ '': '' @ exn_repr boom,
                  ''[INFO] Checking number '' @ quoted ''1051661'' @ ''...'',
                  ''[INFO] '' @ quoted ''1051661'' @ '' appears to be AVAILABLE.''],
        stderr = [boom], posts = [], available = [(''1051661'', ''1051661'')] \<rparr>)"
  by (simp add: check_one_def query_steps_def submit_and_read_def detached_def scripted_def
      seq_def bnd_def print_def ext_def try_except_def ret_def scenario_texts_def classify_def
      no_results_marker_def replace1_def append_available_def)

subsection \<open>The whole check\<close>

lemma steps_in_bnd_comp:
  assumes "steps_in R1 m" "\<And>x. steps_in R2 (f x)"
    and "\<And>a b c. R1 a b \<Longrightarrow> R2 b c \<Longrightarrow> R a c" "\<And>a b. R1 a b \<Longrightarrow> R a b"
  shows "steps_in R (bnd m f)"
  unfolding steps_in_def
proof
  fix s
  obtain r s' where ms: "m s = (r, s')" by (cases "m s")
  from assms(1) ms have 1: "R1 s s'" by (auto simp: steps_in_def dest: spec [of _ s])
  show "R s (snd (bnd m f s))"
  proof (cases r)
    case (Inl e)
    with ms 1 assms(4) show ?thesis by (simp add: bnd_def)
  next
    case (Inr x)
    from assms(2) have "R2 s' (snd (f x s'))" by (simp add: steps_in_def)
    with 1 assms(3) have "R s (snd (f x s'))" by blast
    with ms Inr show ?thesis by (simp add: bnd_def)
  qed
qed

lemma steps_in_seq_comp:
  assumes "steps_in R1 m" "steps_in R2 k"
    and "\<And>a b c. R1 a b \<Longrightarrow> R2 b c \<Longrightarrow> R a c" "\<And>a b. R1 a b \<Longrightarrow> R a b"
  shows "steps_in R (seq m k)"
  unfolding seq_def using assms by (rule steps_in_bnd_comp)

lemma steps_in_try_except_comp:
  assumes "steps_in R1 m" "\<And>e. steps_in R2 (h e)"
    and "\<And>a b c. R1 a b \<Longrightarrow> R2 b c \<Longrightarrow> R a c" "\<And>a b. R1 a b \<Longrightarrow> R a b"
  shows "steps_in R (try_except m h)"
  unfolding steps_in_def
proof
  fix s
  obtain r s' where ms: "m s = (r, s')" by (cases "m s")
  from assms(1) ms have 1: "R1 s s'" by (auto simp: steps_in_def dest: spec [of _ s])
  show "R s (snd (try_except m h s))"
  proof (cases r)
    case (Inr x)
    with ms 1 assms(4) show ?thesis by (simp add: try_except_def)
  next
    case (Inl e)
    from assms(2) have "R2 s' (snd (h e s'))" by (simp add: steps_in_def)
    with 1 assms(3) have "R s (snd (h e s'))" by blast
    with ms Inl show ?thesis by (simp add: try_except_def)
  qed
qed

lemma steps_in_try_finally_comp:
  assumes "steps_in R1 m" "steps_in R2 fin"
    and "\<And>a b c. R1 a b \<Longrightarrow> R2 b c \<Longrightarrow> R a c"
  shows "steps_in R (try_finally m fin)"
  unfolding steps_in_def
proof
  fix s
  obtain r s' where ms: "m s = (r, s')" by (cases "m s")
  obtain r' s'' where fs: "fin s' = (r', s'')" by (cases "fin s'")
  from assms(1) ms have 1: "R1 s s'" by (auto simp: steps_in_def dest: spec [of _ s])
  from assms(2) fs have 2: "R2 s' s''" by (auto simp: steps_in_def dest: spec [of _ s'])
  from 1 2 assms(3) have "R s s''" by blast
  with ms fs show "R s (snd (try_finally m fin s))"
    by (cases r') (simp_all add: try_finally_def)
qed

lemma quiet_adds: "quiet a b \<Longrightarrow> adds qs a b"
  by (simp add: quiet_def adds_def)

lemma quiet_then_adds: "quiet a b \<Longrightarrow> adds qs b c \<Longrightarrow> adds qs a c"
  by (simp add: quiet_def adds_def)

lemma adds_then_quiet: "adds qs a b \<Longrightarrow> quiet b c \<Longrightarrow> adds qs a c"
  by (simp add: quiet_def adds_def)

lemma adds_for_numbers: "steps_in (adds qs) (for_numbers pg box qs)"
  unfolding steps_in_def adds_def
proof
  fix s
  from for_numbers_run [of pg box qs s]
  show "\<exists>ys. available (snd (for_numbers pg box qs s)) = available s @ ys \<and> subseq ys qs"
    by auto
qed

lemma adds_bnd_after_quiet:
  assumes "steps_in quiet m" "\<And>x. steps_in (adds qs) (f x)"
  shows "steps_in (adds qs) (bnd m f)"
  using assms quiet_then_adds quiet_adds by (rule steps_in_bnd_comp)

lemma adds_seq_after_quiet:
  assumes "steps_in quiet m" "steps_in (adds qs) k"
  shows "steps_in (adds qs) (seq m k)"
  using assms quiet_then_adds quiet_adds by (rule steps_in_seq_comp)

lemma adds_seq_then_quiet:
  assumes "steps_in (adds qs) m" "steps_in quiet k"
  shows "steps_in (adds qs) (seq m k)"
proof (rule steps_in_seq_comp [OF assms])
  show "\<And>a b c. adds qs a b \<Longrightarrow> quiet b c \<Longrightarrow> adds qs a c" by (rule adds_then_quiet)
  show "\<And>a b. adds qs a b \<Longrightarrow> adds qs a b" .
qed

lemma adds_try_except_quiet:
  assumes "steps_in (adds qs) m" "\<And>e. steps_in quiet (h e)"
  shows "steps_in (adds qs) (try_except m h)"
proof (rule steps_in_try_except_comp [OF assms])
  show "\<And>a b c. adds qs a b \<Longrightarrow> quiet b c \<Longrightarrow> adds qs a c" by (rule adds_then_quiet)
  show "\<And>a b. adds qs a b \<Longrightarrow> adds qs a b" .
qed

lemma adds_try_finally_quiet:
  assumes "steps_in (adds qs) m" "steps_in quiet fin"
  shows "steps_in (adds qs) (try_finally m fin)"
  using assms adds_then_quiet by (rule steps_in_try_finally_comp)

lemma quiet_steps_adds: "steps_in quiet m \<Longrightarrow> steps_in (adds qs) m"
  by (simp add: steps_in_def quiet_adds)

lemma adds_found_or_not:
  "steps_in (adds qs)
     (case search_box of
        None \<Rightarrow> seq (print line) (ext (browser_close pg))
      | Some box \<Rightarrow> for_numbers pg box qs)"
proof (cases search_box)
  case None
  have "steps_in quiet (seq (print line) (ext (browser_close pg)))" by (intro frame)
  then show ?thesis using None by (simp only: option.case quiet_steps_adds)
next
  case (Some box)
  then show ?thesis by (simp only: option.case adds_for_numbers)
qed

lemma adds_setup_and_loop: "steps_in (adds (NUMBERS_TO_CHECK cfg)) (setup_and_loop cfg pg)"
  unfolding setup_and_loop_def
  by (intro adds_seq_after_quiet adds_bnd_after_quiet adds_found_or_not
        quiet_open_du_number_modal quiet_print quiet_get_search_box)

lemma quiet_outer_handler: "steps_in quiet (seq (print line) (print_exc outer))"
  by (intro frame)

lemma quiet_return_available: "steps_in quiet (\<lambda>s. (Inr (available s), s))"
  by (simp add: steps_in_def quiet_def)

lemma adds_in_playwright: "steps_in (adds (NUMBERS_TO_CHECK cfg)) (in_playwright cfg pg)"
  unfolding in_playwright_def
  by (intro adds_seq_after_quiet quiet_ext adds_try_finally_quiet
        adds_try_except_quiet adds_setup_and_loop quiet_outer_handler)

text \<open>\<open>check_numbers\<close> after \<open>available = []\<close>.\<close>

lemma adds_after_reset:
  "steps_in (adds (NUMBERS_TO_CHECK cfg))
    (seq (ext (playwright_start pg))
    (seq (try_finally (in_playwright cfg pg) (ext (playwright_stop pg)))
         (\<lambda>s. (Inr (available s), s))))"
  by (intro adds_seq_after_quiet quiet_ext adds_seq_then_quiet adds_try_finally_quiet
        adds_in_playwright quiet_return_available)

lemma seq_Inr: "seq m k s = (Inr a, s') \<Longrightarrow> \<exists>s1. k s1 = (Inr a, s')"
  by (auto simp: seq_def bnd_def split: prod.splits sum.splits)

lemma check_numbers_returns_available:
  assumes "check_numbers cfg pg s = (Inr avail, s')"
  shows "avail = available s'"
proof -
  from assms have "\<exists>s1. (\<lambda>s. (Inr (available s), s)) s1 = (Inr avail, s')"
    unfolding check_numbers_def by (blast dest: seq_Inr)
  then show ?thesis by auto
qed

lemma check_numbers_subseq:
  "subseq (available (snd (check_numbers cfg pg s))) (NUMBERS_TO_CHECK cfg)"
proof -
  let ?rest = "seq (ext (playwright_start pg))
    (seq (try_finally (in_playwright cfg pg) (ext (playwright_stop pg)))
         (\<lambda>s. (Inr (available s), s)))"
  have eq: "check_numbers cfg pg s = ?rest (s\<lparr>available := []\<rparr>)"
    unfolding check_numbers_def by (simp add: seq_def bnd_def)
  have "adds (NUMBERS_TO_CHECK cfg) (s\<lparr>available := []\<rparr>) (snd (?rest (s\<lparr>available := []\<rparr>)))"
    using adds_after_reset [of cfg pg] unfolding steps_in_def by (rule spec)
  then show ?thesis unfolding eq by (auto simp: adds_def)
qed

lemma scenario_run:
  "check_numbers (source_config ''123:abc'' ''42'') scenario (initial []) =
     (Inr [(''1051661'', ''1051661'')],
      \<lparr> world = ''1051661'',
        stdout = [''[INFO] Opening du page...'',
                  ''[INFO] Clicking '' @ quoted ''Setup my plan'' @ ''...'',
                  ''[INFO] Clicking '' @ quoted ''Change'' @ '' on the number card...'',
                  ''[INFO] Number picker modal should now be open.'',
                  ''[INFO] Locating search input in modal...'',
                  ''[DEBUG] Found search box via placeholder.'',
                  ''[INFO] Checking number '' @ quoted ''282 0202'' @ ''...'',
                  ''[INFO] '' @ quoted ''282 0202'' @ '' not available (No results found).'',
                  ''[INFO] Checking number '' @ quoted ''1051661'' @ ''...'',
                  ''[INFO] '' @ quoted ''1051661'' @ '' appears to be AVAILABLE.''],
        stderr = [], posts = [], available = [(''1051661'', ''1051661'')] \<rparr>)"
  by (simp add: check_numbers_def in_playwright_def setup_and_loop_def open_du_number_modal_def get_search_box_def
      by_placeholder_def check_one_def query_steps_def submit_and_read_def scenario_def
      scripted_def initial_def source_config_def one_placeholder_def scenario_texts_def
      seq_def bnd_def print_def ext_def try_except_def try_finally_def ret_def classify_def
      no_results_marker_def replace1_def append_available_def)

subsection \<open>No request before the notifier\<close>

lemma no_post_reset [frame]: "steps_in no_post (\<lambda>s. (Inr (), s\<lparr>available := []\<rparr>))"
  by (simp add: steps_in_def no_post_def)

lemma no_post_return_available [frame]: "steps_in no_post (\<lambda>s. (Inr (available s), s))"
  by (simp add: steps_in_def no_post_def)

lemma no_post_open_du_number_modal [frame]: "steps_in no_post (open_du_number_modal cfg pg)"
  by (rule quiet_no_post) (rule quiet_open_du_number_modal)

lemma no_post_get_search_box [frame]: "steps_in no_post (get_search_box pg)"
  by (rule quiet_no_post) (rule quiet_get_search_box)

lemma no_post_check_numbers: "steps_in no_post (check_numbers cfg pg)"
  unfolding check_numbers_def in_playwright_def setup_and_loop_def by (intro frame)

lemma main_nothing_available:
  assumes "fst (check_numbers cfg pg (s\<lparr>stdout := stdout s @ [''[INFO] Starting du number check...'']\<rparr>))
           = Inr []"
  shows "main cfg pg s =
           (Inr (),
            (snd (check_numbers cfg pg
                (s\<lparr>stdout := stdout s @ [''[INFO] Starting du number check...'']\<rparr>)))
            \<lparr>stdout := stdout (snd (check_numbers cfg pg
                (s\<lparr>stdout := stdout s @ [''[INFO] Starting du number check...'']\<rparr>)))
              @ [''[INFO] No numbers available today.'']\<rparr>)"
    and "posts (snd (main cfg pg s)) = posts s"
proof -
  let ?s0 = "s\<lparr>stdout := stdout s @ [''[INFO] Starting du number check...'']\<rparr>"
  obtain s1 where c: "check_numbers cfg pg ?s0 = (Inr [], s1)"
    using assms by (cases "check_numbers cfg pg ?s0") simp
  have m: "main cfg pg s = bnd (check_numbers cfg pg) (\<lambda>avail.
       if avail = []
       then print ''[INFO] No numbers available today.''
       else seq (print ''[INFO] At least one number appears available. Sending Telegram alert...'')
                (send_telegram_message cfg pg (message avail))) ?s0"
    unfolding main_def by (rule seq_print)
  from c show 1: "main cfg pg s =
           (Inr (), (snd (check_numbers cfg pg ?s0))
            \<lparr>stdout := stdout (snd (check_numbers cfg pg ?s0))
              @ [''[INFO] No numbers available today.'']\<rparr>)"
    unfolding m by (simp add: bnd_def print_def)
  have "posts (snd (check_numbers cfg pg ?s0)) = posts ?s0"
    by (rule no_post_posts [OF no_post_check_numbers])
  then show "posts (snd (main cfg pg s)) = posts s"
    unfolding 1 by simp
qed

lemma nothing_found_run:
  "fst (check_numbers (source_config ''123:abc'' ''42'') nothing_found
     ((initial [])\<lparr>stdout := stdout (initial []) @ [''[INFO] Starting du number check...'']\<rparr>)) = Inr []"
  by (simp add: check_numbers_def in_playwright_def setup_and_loop_def open_du_number_modal_def get_search_box_def
      by_placeholder_def check_one_def query_steps_def submit_and_read_def nothing_found_def
      scripted_def initial_def source_config_def one_placeholder_def
      seq_def bnd_def print_def ext_def try_except_def try_finally_def ret_def classify_def
      no_results_marker_def replace1_def append_available_def)

subsection \<open>When no search input is found\<close>













section \<open>The properties of the specification\<close>

subsection \<open>C1: a page with the marker is never recorded\<close>

text \<open>
  Claim C1. When the text read after submitting a query contains ``No results found'',
  the query is classified unavailable whatever its fragment is, so also when the
  normalised fragment occurs in the normalised text: the iteration prints the
  ``not available'' line and \<open>available\<close> is what it was before the iteration.
\<close>

theorem no_results_excluded:
  assumes "submit_and_read pg box search_value s = (Inr (Some body_text), s1)"
    and "str_in no_results_marker body_text"
  shows "classify (Some body_text) match_fragment = Unavailable \<and>
         check_one pg box (search_value, match_fragment) s =
           (Inr (), s1\<lparr>stdout := stdout s1 @
              [''[INFO] '' @ quoted search_value @ '' not available (No results found).'']\<rparr>) \<and>
         available (snd (check_one pg box (search_value, match_fragment) s)) = available s"
proof -
  have v: "classify (Some body_text) match_fragment = Unavailable"
    using assms(2) by (rule marker_unavailable)
  have a: "available s1 = available s"
    using quiet_available [OF quiet_submit_and_read assms(1)] .
  from check_one_read [OF assms(1), of match_fragment] v a show ?thesis by simp
qed

text \<open>
  The first query of the scenario: its page holds both the marker and the number, and
  the number is not recorded.
\<close>

theorem no_results_excluded_witness:
  "str_in no_results_marker ''No results found for 282 0202'' \<and>
   str_in (replace1 CHR '' '' [] ''282 0202'') (replace1 CHR '' '' [] ''No results found for 282 0202'') \<and>
   classify (Some ''No results found for 282 0202'') ''282 0202'' = Unavailable \<and>
   available (snd (check_one scenario (First (GetByPlaceholder ''Search for a number''))
      (''282 0202'', ''282 0202'') (initial []))) = []"
proof -
  have m: "str_in no_results_marker ''No results found for 282 0202''"
    by (simp add: no_results_marker_def)
  have f: "str_in (replace1 CHR '' '' [] ''282 0202'')
             (replace1 CHR '' '' [] ''No results found for 282 0202'')"
    by (simp add: replace1_def)
  have i: "available (initial ([]::string)) = []" by (simp add: initial_def)
  from no_results_excluded [OF submit_scenario_first m, of "''282 0202''"] m f i
  show ?thesis by (simp del: str_in.simps)
qed

subsection \<open>C2: the fragment is matched up to spaces\<close>

text \<open>
  Claim C2, as the code has it. The normalisation removes the space character (U+0020)
  from the page text and from the fragment, and nothing else. So when the page shows a
  text that differs from the fragment only in where its spaces are, and the marker is
  absent, the query is classified available, and the iteration appends it to
  \<open>available\<close>.
\<close>

theorem space_insensitive:
  assumes "str_in shown body_text"
    and "replace1 CHR '' '' [] shown = replace1 CHR '' '' [] match_fragment"
    and "\<not> str_in no_results_marker body_text"
  shows "classify (Some body_text) match_fragment = Available \<and>
         (\<forall>pg box search_value s s1.
            submit_and_read pg box search_value s = (Inr (Some body_text), s1) \<longrightarrow>
            check_one pg box (search_value, match_fragment) s =
              (Inr (), s1\<lparr>stdout := stdout s1 @
                 [''[INFO] '' @ quoted match_fragment @ '' appears to be AVAILABLE.''],
                 available := available s1 @ [(search_value, match_fragment)]\<rparr>))"
proof -
  have v: "classify (Some body_text) match_fragment = Available"
    using assms by (rule fragment_available)
  show ?thesis
  proof (intro conjI allI impI)
    show "classify (Some body_text) match_fragment = Available" by (rule v)
  next
    fix pg :: "'a env" and box search_value s s1
    assume "submit_and_read pg box search_value s = (Inr (Some body_text), s1)"
    from check_one_read [OF this, of match_fragment] v
    show "check_one pg box (search_value, match_fragment) s =
              (Inr (), s1\<lparr>stdout := stdout s1 @
                 [''[INFO] '' @ quoted match_fragment @ '' appears to be AVAILABLE.''],
                 available := available s1 @ [(search_value, match_fragment)]\<rparr>)"
      by simp
  qed
qed

text \<open>The two spacings of the specification: ``2820202'' against ``282 0202'', and back.\<close>

theorem space_insensitive_witness:
  "classify (Some ''2820202 is available now'') ''282 0202'' = Available \<and>
   classify (Some ''282 0202 is available now'') ''2820202'' = Available"
proof -
  have n1: "\<not> str_in no_results_marker ''2820202 is available now''"
    by (simp add: no_results_marker_def)
  have n2: "\<not> str_in no_results_marker ''282 0202 is available now''"
    by (simp add: no_results_marker_def)
  have s1: "str_in ''2820202'' ''2820202 is available now''" by simp
  have s2: "str_in ''282 0202'' ''282 0202 is available now''" by simp
  have e1: "replace1 CHR '' '' [] ''2820202'' = replace1 CHR '' '' [] ''282 0202''"
    by (simp add: replace1_def)
  have e2: "replace1 CHR '' '' [] ''282 0202'' = replace1 CHR '' '' [] ''2820202''"
    by (simp add: replace1_def)
  from space_insensitive [OF s1 e1 n1] space_insensitive [OF s2 e2 n2]
  show ?thesis by blast
qed

text \<open>
  For whitespace in general the claim fails: a page that shows the number broken over
  two lines differs from the fragment ``2820202'' only in whitespace, the marker is
  absent, and the query is classified ambiguous.
\<close>

theorem whitespace_counterexample:
  "strip_whitespace (''282'' @ [CHR 0x0A] @ ''0202'') = strip_whitespace ''2820202'' \<and>
   str_in (''282'' @ [CHR 0x0A] @ ''0202'') (''282'' @ [CHR 0x0A] @ ''0202 is available now'') \<and>
   \<not> str_in no_results_marker (''282'' @ [CHR 0x0A] @ ''0202 is available now'') \<and>
   classify (Some (''282'' @ [CHR 0x0A] @ ''0202 is available now'')) ''2820202'' = Ambiguous"
  by (simp add: strip_whitespace_def whitespace_def no_results_marker_def classify_def replace1_def)

subsection \<open>C3: the lines of the message\<close>

text \<open>
  Claim C3, as the code has it. When no fragment of the available set contains a line
  feed, the lines of the message are the header followed by one bullet
  ``- fragment'' for every entry, in the order of the set: one header line and
  \<open>N\<close> bullet lines.
\<close>

theorem message_header_and_bullets:
  assumes "\<forall>q\<in>set avail. CHR 0x0A \<notin> set (snd q)"
  shows "split_lines (message avail) = header # map (\<lambda>q. ''- '' @ snd q) avail \<and>
         length (split_lines (message avail)) = 1 + length avail"
proof -
  have "\<forall>x\<in>set (header # map (\<lambda>q. ''- '' @ snd q) avail). CHR 0x0A \<notin> set x"
    using assms header_plain by auto
  then have "split_lines (join [CHR 0x0A] (header # map (\<lambda>q. ''- '' @ snd q) avail))
             = header # map (\<lambda>q. ''- '' @ snd q) avail"
    by (intro split_lines_join) simp_all
  then have "split_lines (message avail) = header # map (\<lambda>q. ''- '' @ snd q) avail"
    by (simp only: message_def message_lines_eq)
  then show ?thesis by simp
qed

text \<open>Two entries give three lines; the message of the scenario is the expected one.\<close>

theorem message_header_and_bullets_witness:
  "split_lines (message [(''282 0202'', ''282 0202''), (''1051661'', ''1051661'')]) =
     [header, ''- 282 0202'', ''- 1051661''] \<and>
   message [(''1051661'', ''1051661'')] =
     ''The following numbers appear to be available on du:'' @ [CHR 0x0A] @ ''- 1051661''"
proof -
  have h: "\<forall>q\<in>set [(''282 0202'', ''282 0202''), (''1051661'', ''1051661'')]. CHR 0x0A \<notin> set (snd q)"
    by simp
  have m: "message [(''1051661'', ''1051661'')] =
     ''The following numbers appear to be available on du:'' @ [CHR 0x0A] @ ''- 1051661''"
    by (simp add: message_def message_lines_def header_def)
  from message_header_and_bullets [OF h] m show ?thesis by simp
qed

text \<open>
  A fragment may contain a line feed and still be found available; its bullet then
  takes two lines, and the message for one entry has three lines.
\<close>

theorem message_lines_counterexample:
  "classify (Some (''282'' @ [CHR 0x0A] @ ''0202 is available now'')) (''282'' @ [CHR 0x0A] @ ''0202'')
     = Available \<and>
   split_lines (message [(''282 0202'', ''282'' @ [CHR 0x0A] @ ''0202'')]) =
     [header, ''- 282'', ''0202''] \<and>
   length (split_lines (message [(''282 0202'', ''282'' @ [CHR 0x0A] @ ''0202'')])) \<noteq> 1 + 1"
  by (simp add: classify_def no_results_marker_def replace1_def message_def message_lines_def
      header_def)

subsection \<open>C4: nothing available, nothing sent\<close>

text \<open>
  Claim C4. When \<open>check_numbers\<close> returns the empty list, \<open>main\<close> returns
  normally, has issued no HTTP request, and has printed after the check only the line
  ``No numbers available today''.
\<close>

theorem nothing_available_no_request:
  assumes "fst (check_numbers cfg pg (s\<lparr>stdout := stdout s @ [''[INFO] Starting du number check...'']\<rparr>))
           = Inr []"
  shows "fst (main cfg pg s) = Inr () \<and>
         posts (snd (main cfg pg s)) = posts s \<and>
         stdout (snd (main cfg pg s)) =
           stdout (snd (check_numbers cfg pg
             (s\<lparr>stdout := stdout s @ [''[INFO] Starting du number check...'']\<rparr>)))
           @ [''[INFO] No numbers available today.'']"
  using main_nothing_available [OF assms] by simp

text \<open>A run in which every search answers ``No results found''.\<close>

theorem nothing_available_no_request_witness:
  "fst (check_numbers (source_config ''123:abc'' ''42'') nothing_found
     ((initial [])\<lparr>stdout := stdout (initial []) @ [''[INFO] Starting du number check...'']\<rparr>)) = Inr [] \<and>
   fst (main (source_config ''123:abc'' ''42'') nothing_found (initial [])) = Inr () \<and>
   posts (snd (main (source_config ''123:abc'' ''42'') nothing_found (initial []))) = []"
proof -
  have i: "posts (initial ([]::string)) = []" by (simp add: initial_def)
  from nothing_available_no_request [OF nothing_found_run] nothing_found_run i
  show ?thesis by simp
qed

subsection \<open>C5: one failing query does not stop the others\<close>

text \<open>
  Claim C5. An iteration never raises. When the steps of a query raise, the exception is
  printed with its traceback, \<open>available\<close> is unchanged, and the loop goes on with
  the remaining queries from the state the handler left. The loop itself never raises,
  and every query of the list has been attempted: its ``Checking number'' line is in the
  output.
\<close>

theorem per_query_isolation:
  "(\<exists>s'. check_one pg box q s = (Inr (), s')) \<and>
   (\<forall>e s1. query_steps pg box q s = (Inl e, s1) \<longrightarrow>
      check_one pg box q s =
        (Inr (), s1\<lparr>stdout := stdout s1 @
           [''[ERROR] Error while checking '' @ quoted (fst q) @ '': '' @ exn_repr e],
           stderr := stderr s1 @ [e]\<rparr>) \<and>
      available s1 = available s \<and>
      for_numbers pg box (q # qs) s =
        for_numbers pg box qs
          (s1\<lparr>stdout := stdout s1 @
             [''[ERROR] Error while checking '' @ quoted (fst q) @ '': '' @ exn_repr e],
             stderr := stderr s1 @ [e]\<rparr>)) \<and>
   (\<exists>s'. for_numbers pg box (q # qs) s = (Inr (), s') \<and>
      (\<forall>q'\<in>set (q # qs).
         (''[INFO] Checking number '' @ quoted (fst q') @ ''...'') \<in> set (stdout s')))"
proof (intro conjI allI impI)
  show "\<exists>s'. check_one pg box q s = (Inr (), s')" by (rule check_one_returns)
next
  fix e s1
  assume raised: "query_steps pg box q s = (Inl e, s1)"
  show "check_one pg box q s =
        (Inr (), s1\<lparr>stdout := stdout s1 @
           [''[ERROR] Error while checking '' @ quoted (fst q) @ '': '' @ exn_repr e],
           stderr := stderr s1 @ [e]\<rparr>)"
    using raised by (rule check_one_raises)
  then show "for_numbers pg box (q # qs) s =
        for_numbers pg box qs
          (s1\<lparr>stdout := stdout s1 @
             [''[ERROR] Error while checking '' @ quoted (fst q) @ '': '' @ exn_repr e],
             stderr := stderr s1 @ [e]\<rparr>)"
    by (simp add: seq_def bnd_def)
  from query_steps_raises [OF raised]
  show "available s1 = available s"
    by (rule quiet_available [OF quiet_submit_and_read])
next
  from for_numbers_run [of pg box "q # qs" s]
  show "\<exists>s'. for_numbers pg box (q # qs) s = (Inr (), s') \<and>
      (\<forall>q'\<in>set (q # qs).
         (''[INFO] Checking number '' @ quoted (fst q') @ ''...'') \<in> set (stdout s'))"
    by blast
qed

text \<open>
  The search input is detached while the first number is typed; the second number is
  still searched and found available.
\<close>

theorem per_query_isolation_witness:
  "fst (query_steps detached (First (GetByPlaceholder ''Search for a number''))
     (''282 0202'', ''282 0202'') (initial [])) = Inl boom \<and>
   fst (for_numbers detached (First (GetByPlaceholder ''Search for a number''))
     [(''282 0202'', ''282 0202''), (''1051661'', ''1051661'')] (initial [])) = Inr () \<and>
   available (snd (for_numbers detached (First (GetByPlaceholder ''Search for a number''))
     [(''282 0202'', ''282 0202''), (''1051661'', ''1051661'')] (initial [])))
     = [(''1051661'', ''1051661'')]"
proof -
  from per_query_isolation [of detached "First (GetByPlaceholder ''Search for a number'')"
      "(''282 0202'', ''282 0202'')" "initial []" "[(''1051661'', ''1051661'')]"]
  have "\<forall>e s1. query_steps detached (First (GetByPlaceholder ''Search for a number''))
           (''282 0202'', ''282 0202'') (initial []) = (Inl e, s1) \<longrightarrow>
         for_numbers detached (First (GetByPlaceholder ''Search for a number''))
           [(''282 0202'', ''282 0202''), (''1051661'', ''1051661'')] (initial []) =
         for_numbers detached (First (GetByPlaceholder ''Search for a number''))
           [(''1051661'', ''1051661'')]
           (s1\<lparr>stdout := stdout s1 @
              [''[ERROR] Error while checking '' @ quoted (fst (''282 0202'', ''282 0202''))
               @ '': '' @ exn_repr e],
              stderr := stderr s1 @ [e]\<rparr>)"
    by blast
  from this [rule_format, OF detached_first]
  have "for_numbers detached (First (GetByPlaceholder ''Search for a number''))
           [(''282 0202'', ''282 0202''), (''1051661'', ''1051661'')] (initial []) =
        (Inr (),
      \<lparr> world = ''1051661'',
        stdout = [''[INFO] Checking number '' @ quoted ''282 0202'' @ ''...'',
                  ''[ERROR] Error while checking '' @ quoted ''282 0202'' @ '': '' @ exn_repr boom,
                  ''[INFO] Checking number '' @ quoted ''1051661'' @ ''...'',
                  ''[INFO] '' @ quoted ''1051661'' @ '' appears to be AVAILABLE.''],
        stderr = [boom], posts = [], available = [(''1051661'', ''1051661'')] \<rparr>)"
    using detached_second by simp
  with detached_first show ?thesis by simp
qed

subsection \<open>C6: no search input\<close>




subsection \<open>C7: a failed delivery is only logged\<close>

text \<open>
  Claim C7. \<open>send_telegram_message\<close> always returns normally. When the credentials are
  set and the request is answered with a status other than 200, the response text is
  printed as an error; when the request raises, the exception is printed as an error.
\<close>

theorem delivery_failure_contained:
  "(\<exists>s'. send_telegram_message cfg pg msg s = (Inr (), s')) \<and>
   (TELEGRAM_BOT_TOKEN cfg \<noteq> [] \<and> TELEGRAM_CHAT_ID cfg \<noteq> [] \<and>
    \<not> str_in ''PUT_YOUR'' (TELEGRAM_BOT_TOKEN cfg) \<and> \<not> str_in ''PUT_YOUR'' (TELEGRAM_CHAT_ID cfg) \<longrightarrow>
      (\<forall>resp w.
         requests_post pg (''https://api.telegram.org/bot'' @ TELEGRAM_BOT_TOKEN cfg @ ''/sendMessage'')
           [(''chat_id'', TELEGRAM_CHAT_ID cfg), (''text'', msg)] 10 (world s) = (Inr resp, w) \<and>
         status_code resp \<noteq> 200 \<longrightarrow>
         send_telegram_message cfg pg msg s =
           (Inr (), s\<lparr>world := w,
              posts := posts s @
                [(''https://api.telegram.org/bot'' @ TELEGRAM_BOT_TOKEN cfg @ ''/sendMessage'',
                  [(''chat_id'', TELEGRAM_CHAT_ID cfg), (''text'', msg)])],
              stdout := stdout s @
                [''[ERROR] Failed to send Telegram message: '' @ resp_text resp]\<rparr>)) \<and>
      (\<forall>e w.
         requests_post pg (''https://api.telegram.org/bot'' @ TELEGRAM_BOT_TOKEN cfg @ ''/sendMessage'')
           [(''chat_id'', TELEGRAM_CHAT_ID cfg), (''text'', msg)] 10 (world s) = (Inl e, w) \<longrightarrow>
         send_telegram_message cfg pg msg s =
           (Inr (), s\<lparr>world := w,
              posts := posts s @
                [(''https://api.telegram.org/bot'' @ TELEGRAM_BOT_TOKEN cfg @ ''/sendMessage'',
                  [(''chat_id'', TELEGRAM_CHAT_ID cfg), (''text'', msg)])],
              stdout := stdout s @
                [''[ERROR] Exception while sending Telegram message: '' @ exn_repr e]\<rparr>)))"
proof (intro conjI allI impI)
  obtain r w where p: "requests_post pg
      (''https://api.telegram.org/bot'' @ TELEGRAM_BOT_TOKEN cfg @ ''/sendMessage'')
      [(''chat_id'', TELEGRAM_CHAT_ID cfg), (''text'', msg)] 10 (world s) = (r, w)"
    by (cases "requests_post pg
      (''https://api.telegram.org/bot'' @ TELEGRAM_BOT_TOKEN cfg @ ''/sendMessage'')
      [(''chat_id'', TELEGRAM_CHAT_ID cfg), (''text'', msg)] 10 (world s)")
  then show "\<exists>s'. send_telegram_message cfg pg msg s = (Inr (), s')"
    by (cases r)
       (simp_all add: send_telegram_message_def Let_def print_def try_except_def bnd_def post_def
          del: str_in.simps)
next
  fix resp w
  assume "TELEGRAM_BOT_TOKEN cfg \<noteq> [] \<and> TELEGRAM_CHAT_ID cfg \<noteq> [] \<and>
    \<not> str_in ''PUT_YOUR'' (TELEGRAM_BOT_TOKEN cfg) \<and> \<not> str_in ''PUT_YOUR'' (TELEGRAM_CHAT_ID cfg)"
    and "requests_post pg (''https://api.telegram.org/bot'' @ TELEGRAM_BOT_TOKEN cfg @ ''/sendMessage'')
           [(''chat_id'', TELEGRAM_CHAT_ID cfg), (''text'', msg)] 10 (world s) = (Inr resp, w) \<and>
         status_code resp \<noteq> 200"
  then show "send_telegram_message cfg pg msg s =
           (Inr (), s\<lparr>world := w,
              posts := posts s @
                [(''https://api.telegram.org/bot'' @ TELEGRAM_BOT_TOKEN cfg @ ''/sendMessage'',
                  [(''chat_id'', TELEGRAM_CHAT_ID cfg), (''text'', msg)])],
              stdout := stdout s @
                [''[ERROR] Failed to send Telegram message: '' @ resp_text resp]\<rparr>)"
    by (simp add: send_telegram_message_def Let_def print_def try_except_def bnd_def post_def
          del: str_in.simps)
next
  fix e w
  assume "TELEGRAM_BOT_TOKEN cfg \<noteq> [] \<and> TELEGRAM_CHAT_ID cfg \<noteq> [] \<and>
    \<not> str_in ''PUT_YOUR'' (TELEGRAM_BOT_TOKEN cfg) \<and> \<not> str_in ''PUT_YOUR'' (TELEGRAM_CHAT_ID cfg)"
    and "requests_post pg (''https://api.telegram.org/bot'' @ TELEGRAM_BOT_TOKEN cfg @ ''/sendMessage'')
           [(''chat_id'', TELEGRAM_CHAT_ID cfg), (''text'', msg)] 10 (world s) = (Inl e, w)"
  then show "send_telegram_message cfg pg msg s =
           (Inr (), s\<lparr>world := w,
              posts := posts s @
                [(''https://api.telegram.org/bot'' @ TELEGRAM_BOT_TOKEN cfg @ ''/sendMessage'',
                  [(''chat_id'', TELEGRAM_CHAT_ID cfg), (''text'', msg)])],
              stdout := stdout s @
                [''[ERROR] Exception while sending Telegram message: '' @ exn_repr e]\<rparr>)"
    by (simp add: send_telegram_message_def Let_def print_def try_except_def bnd_def post_def
          del: str_in.simps)
qed

text \<open>A Telegram API that answers 401, and one that cannot be reached.\<close>

theorem delivery_failure_contained_witness:
  "send_telegram_message (source_config ''123:abc'' ''42'') scenario_refused ''hello'' (initial []) =
     (Inr (), \<lparr> world = [], stdout = [''[ERROR] Failed to send Telegram message: Unauthorized''],
        stderr = [],
        posts = [(''https://api.telegram.org/bot123:abc/sendMessage'',
                  [(''chat_id'', ''42''), (''text'', ''hello'')])],
        available = [] \<rparr>) \<and>
   send_telegram_message (source_config ''123:abc'' ''42'') scenario_offline ''hello'' (initial []) =
     (Inr (), \<lparr> world = [],
        stdout = [''[ERROR] Exception while sending Telegram message: '' @ exn_repr boom],
        stderr = [],
        posts = [(''https://api.telegram.org/bot123:abc/sendMessage'',
                  [(''chat_id'', ''42''), (''text'', ''hello'')])],
        available = [] \<rparr>)"
proof -
  have creds: "TELEGRAM_BOT_TOKEN (source_config ''123:abc'' ''42'') \<noteq> [] \<and>
      TELEGRAM_CHAT_ID (source_config ''123:abc'' ''42'') \<noteq> [] \<and>
      \<not> str_in ''PUT_YOUR'' (TELEGRAM_BOT_TOKEN (source_config ''123:abc'' ''42'')) \<and>
      \<not> str_in ''PUT_YOUR'' (TELEGRAM_CHAT_ID (source_config ''123:abc'' ''42''))"
    by (simp add: source_config_def)
  have r: "requests_post scenario_refused
      (''https://api.telegram.org/bot'' @ TELEGRAM_BOT_TOKEN (source_config ''123:abc'' ''42'')
         @ ''/sendMessage'')
      [(''chat_id'', TELEGRAM_CHAT_ID (source_config ''123:abc'' ''42'')), (''text'', ''hello'')] 10
      (world (initial [])) = (Inr refused, []) \<and> status_code refused \<noteq> 200"
    by (simp add: scenario_refused_def scripted_def initial_def refused_def)
  have o: "requests_post scenario_offline
      (''https://api.telegram.org/bot'' @ TELEGRAM_BOT_TOKEN (source_config ''123:abc'' ''42'')
         @ ''/sendMessage'')
      [(''chat_id'', TELEGRAM_CHAT_ID (source_config ''123:abc'' ''42'')), (''text'', ''hello'')] 10
      (world (initial [])) = (Inl boom, [])"
    by (simp add: scenario_offline_def scripted_def initial_def)
  note refusal = delivery_failure_contained
    [of "source_config ''123:abc'' ''42''" scenario_refused "''hello''" "initial []",
     THEN conjunct2, THEN mp, OF creds, THEN conjunct1, rule_format, OF r]
  note offline = delivery_failure_contained
    [of "source_config ''123:abc'' ''42''" scenario_offline "''hello''" "initial []",
     THEN conjunct2, THEN mp, OF creds, THEN conjunct2, rule_format, OF o]
  from refusal offline show ?thesis
    by (simp add: source_config_def initial_def refused_def)
qed

subsection \<open>C8: missing credentials\<close>

text \<open>
  Claim C8. When the bot token or the chat id is empty or contains the placeholder
  ``PUT_YOUR'', \<open>send_telegram_message\<close> prints a warning and does nothing else: no
  HTTP request is issued and the world is untouched.
\<close>

theorem missing_credentials_skip:
  assumes "TELEGRAM_BOT_TOKEN cfg = [] \<or> TELEGRAM_CHAT_ID cfg = [] \<or>
           str_in ''PUT_YOUR'' (TELEGRAM_BOT_TOKEN cfg) \<or> str_in ''PUT_YOUR'' (TELEGRAM_CHAT_ID cfg)"
  shows "send_telegram_message cfg pg msg s =
           (Inr (), s\<lparr>stdout := stdout s @
              [''[WARN] Telegram credentials not set; skipping notification.'']\<rparr>) \<and>
         posts (snd (send_telegram_message cfg pg msg s)) = posts s \<and>
         world (snd (send_telegram_message cfg pg msg s)) = world s"
  using assms
  by (auto simp add: send_telegram_message_def Let_def print_def simp del: str_in.simps)

text \<open>An empty token, and a chat id left at its placeholder.\<close>

theorem missing_credentials_skip_witness:
  "posts (snd (send_telegram_message (source_config [] ''42'') scenario ''hello'' (initial []))) = [] \<and>
   posts (snd (send_telegram_message (source_config ''123:abc'' ''PUT_YOUR_CHAT_ID_HERE'') scenario
     ''hello'' (initial []))) = [] \<and>
   stdout (snd (send_telegram_message (source_config [] ''42'') scenario ''hello'' (initial []))) =
     [''[WARN] Telegram credentials not set; skipping notification.'']"
proof -
  have a: "TELEGRAM_BOT_TOKEN (source_config [] ''42'') = [] \<or>
           TELEGRAM_CHAT_ID (source_config [] ''42'') = [] \<or>
           str_in ''PUT_YOUR'' (TELEGRAM_BOT_TOKEN (source_config [] ''42'')) \<or>
           str_in ''PUT_YOUR'' (TELEGRAM_CHAT_ID (source_config [] ''42''))"
    by (simp add: source_config_def)
  have b: "TELEGRAM_BOT_TOKEN (source_config ''123:abc'' ''PUT_YOUR_CHAT_ID_HERE'') = [] \<or>
           TELEGRAM_CHAT_ID (source_config ''123:abc'' ''PUT_YOUR_CHAT_ID_HERE'') = [] \<or>
           str_in ''PUT_YOUR'' (TELEGRAM_BOT_TOKEN (source_config ''123:abc'' ''PUT_YOUR_CHAT_ID_HERE'')) \<or>
           str_in ''PUT_YOUR'' (TELEGRAM_CHAT_ID (source_config ''123:abc'' ''PUT_YOUR_CHAT_ID_HERE''))"
    by (simp add: source_config_def)
  have i: "posts (initial ([]::string)) = []" "stdout (initial ([]::string)) = []"
    by (simp_all add: initial_def)
  from missing_credentials_skip [OF a, of scenario "''hello''" "initial []"]
       missing_credentials_skip [OF b, of scenario "''hello''" "initial []"] i
  show ?thesis by simp
qed

subsection \<open>C9: an empty or blank fragment\<close>

text \<open>
  Claim C9. A fragment that is empty or consists of spaces only is classified available
  on every page without the marker, on the empty page and when the page has no text.
\<close>

theorem blank_fragment_available:
  assumes "set match_fragment \<subseteq> {CHR '' ''}"
  shows "classify None match_fragment = Available \<and>
         classify (Some []) match_fragment = Available \<and>
         (\<forall>body_text. \<not> str_in no_results_marker body_text \<longrightarrow>
            classify (Some body_text) match_fragment = Available)"
  using assms
  by (simp add: classify_def replace1_spaces str_in_Nil no_results_marker_def)

text \<open>A fragment of two spaces, and the empty fragment.\<close>

theorem blank_fragment_available_witness:
  "set ''  '' \<subseteq> {CHR '' ''} \<and> classify None ''  '' = Available \<and>
   classify None [] = Available \<and>
   classify (Some ''Choose your number'') ''  '' = Available"
proof -
  have h: "set ''  '' \<subseteq> {CHR '' ''}" by simp
  have h0: "set ([]::string) \<subseteq> {CHR '' ''}" by simp
  have n: "\<not> str_in no_results_marker ''Choose your number''"
    by (simp add: no_results_marker_def)
  from blank_fragment_available [OF h] blank_fragment_available [OF h0] h n
  show ?thesis by blast
qed

subsection \<open>C10: the result is a subsequence of the configuration\<close>

text \<open>
  Claim C10. Whatever the browser does, the list \<open>available\<close> that
  \<open>check_numbers\<close> leaves is a subsequence of \<open>NUMBERS_TO_CHECK\<close>, and so is the
  list it returns when it returns: its entries are configured pairs, in the order of the
  configuration, none more often than it is configured.
\<close>

theorem available_subsequence:
  "subseq (available (snd (check_numbers cfg pg s))) (NUMBERS_TO_CHECK cfg) \<and>
   (\<forall>avail. fst (check_numbers cfg pg s) = Inr avail \<longrightarrow>
      subseq avail (NUMBERS_TO_CHECK cfg) \<and>
      set avail \<subseteq> set (NUMBERS_TO_CHECK cfg) \<and>
      length avail \<le> length (NUMBERS_TO_CHECK cfg))"
proof (intro conjI allI impI)
  show sub: "subseq (available (snd (check_numbers cfg pg s))) (NUMBERS_TO_CHECK cfg)"
    by (rule check_numbers_subseq)
  fix avail
  assume "fst (check_numbers cfg pg s) = Inr avail"
  then have "check_numbers cfg pg s = (Inr avail, snd (check_numbers cfg pg s))"
    by (simp add: prod_eq_iff)
  then have "avail = available (snd (check_numbers cfg pg s))"
    by (rule check_numbers_returns_available)
  with sub show s: "subseq avail (NUMBERS_TO_CHECK cfg)" by simp
  from s show "set avail \<subseteq> set (NUMBERS_TO_CHECK cfg)" by (auto dest: list_emb_set)
  from s show "length avail \<le> length (NUMBERS_TO_CHECK cfg)" by (rule list_emb_length)
qed

text \<open>The scenario of the specification returns the second of the two configured pairs.\<close>

theorem available_subsequence_witness:
  "fst (check_numbers (source_config ''123:abc'' ''42'') scenario (initial [])) =
     Inr [(''1051661'', ''1051661'')] \<and>
   subseq [(''1051661'', ''1051661'')]
     (NUMBERS_TO_CHECK (source_config ''123:abc'' ''42''))"
proof -
  have r: "fst (check_numbers (source_config ''123:abc'' ''42'') scenario (initial [])) =
     Inr [(''1051661'', ''1051661'')]"
    by (simp only: scenario_run fst_conv)
  from available_subsequence
    [of "source_config ''123:abc'' ''42''" scenario "initial []",
     THEN conjunct2, rule_format, OF r, THEN conjunct1] r
  show ?thesis by (rule conjI [rotated])
qed

end
